theory Spec2Isabelle
  imports Main "HOL-Library.AList" "HOL-Library.Multiset"
begin

section \<open>FUMIC: data model\<close>

text \<open>
  The development follows \<^verbatim>\<open>src/fumic.py\<close>. Python exceptions are values: a function
  that can raise returns \<open>py_error + 'a\<close>, with \<open>Inl\<close> the exception that leaves it.
\<close>

datatype py_error = KeyError | IndexError | TypeError | ValueError

text \<open>
  A pysam aligned segment, with the attributes the program reads.
  \<open>reference_positions\<close> is the value of \<^verbatim>\<open>get_reference_positions(full_length=True)\<close>:
  one entry per query base, \<open>None\<close> where the base is not aligned.
\<close>

record read =
  query_name :: string
  is_read1 :: bool
  is_reverse :: bool
  query_sequence :: string
  reference_positions :: "int option list"

text \<open>
  A Python dict is an association list in insertion order. \<open>d[k]\<close> raises KeyError on a
  missing key, \<open>k in d\<close> tests the key, \<open>d[k] = v\<close> is \<^const>\<open>AList.update\<close> (an
  existing key keeps its place, a new one goes to the end), and a dict is true in a
  condition when it is not empty.
\<close>

type_synonym ('k, 'v) dict = "('k \<times> 'v) list"

definition dict_get :: "('k, 'v) dict \<Rightarrow> 'k \<Rightarrow> py_error + 'v" where
  "dict_get d k = (case map_of d k of None \<Rightarrow> Inl KeyError | Some v \<Rightarrow> Inr v)"

definition dict_in :: "'k \<Rightarrow> ('k, 'v) dict \<Rightarrow> bool" where
  "dict_in k d = (map_of d k \<noteq> None)"

text \<open>The base tally of \<^verbatim>\<open>pos_hits\<close>: counts keyed by the symbols A, T, G, C, N and -.\<close>

type_synonym tally = "(char, nat) dict"

section \<open>pos\_hits\<close>

text \<open>\<^verbatim>\<open>list.index(x)\<close>: the first index holding \<open>x\<close>; \<open>None\<close> stands for ValueError.\<close>

fun list_index :: "'a list \<Rightarrow> 'a \<Rightarrow> nat option" where
  "list_index [] x = None"
| "list_index (y # ys) x = (if y = x then Some 0 else map_option Suc (list_index ys x))"

record counters =
  n_a :: nat
  n_t :: nat
  n_g :: nat
  n_c :: nat
  n_n :: nat
  n_d :: nat

text \<open>
  The body of the loop of \<^verbatim>\<open>pos_hits\<close> for one read. The ValueError of \<^verbatim>\<open>index\<close> is caught
  and counted as a deletion; \<^verbatim>\<open>read_seq[ind_pos]\<close> beyond the sequence raises IndexError,
  which nothing catches.
\<close>

definition pos_hits_step :: "int \<Rightarrow> read \<Rightarrow> counters \<Rightarrow> py_error + counters" where
  "pos_hits_step record_pos rd c =
     (case list_index (reference_positions rd) (Some record_pos) of
        None \<Rightarrow> Inr (c\<lparr>n_d := n_d c + 1\<rparr>)
      | Some ind_pos \<Rightarrow>
          if ind_pos < length (query_sequence rd) then
            (let read_base = query_sequence rd ! ind_pos in
             if read_base = CHR ''A'' then Inr (c\<lparr>n_a := n_a c + 1\<rparr>)
             else if read_base = CHR ''T'' then Inr (c\<lparr>n_t := n_t c + 1\<rparr>)
             else if read_base = CHR ''G'' then Inr (c\<lparr>n_g := n_g c + 1\<rparr>)
             else if read_base = CHR ''C'' then Inr (c\<lparr>n_c := n_c c + 1\<rparr>)
             else Inr (c\<lparr>n_n := n_n c + 1\<rparr>))
          else Inl IndexError)"

fun pos_hits_loop :: "int \<Rightarrow> read list \<Rightarrow> counters \<Rightarrow> py_error + counters" where
  "pos_hits_loop record_pos [] c = Inr c"
| "pos_hits_loop record_pos (rd # inp_lst) c =
     (case pos_hits_step record_pos rd c of
        Inl e \<Rightarrow> Inl e
      | Inr c' \<Rightarrow> pos_hits_loop record_pos inp_lst c')"

definition pos_dict :: "counters \<Rightarrow> tally" where
  "pos_dict c = [(CHR ''A'', n_a c), (CHR ''T'', n_t c), (CHR ''G'', n_g c),
                 (CHR ''C'', n_c c), (CHR ''N'', n_n c), (CHR ''-'', n_d c)]"

definition pos_hits :: "read list \<Rightarrow> int \<Rightarrow> py_error + tally" where
  "pos_hits inp_lst record_pos =
     (case pos_hits_loop record_pos inp_lst
             \<lparr>n_a = 0, n_t = 0, n_g = 0, n_c = 0, n_n = 0, n_d = 0\<rparr> of
        Inl e \<Rightarrow> Inl e
      | Inr c \<Rightarrow> Inr (pos_dict c))"


section \<open>Exceptions in sequence\<close>

definition bind_err :: "py_error + 'a \<Rightarrow> ('a \<Rightarrow> py_error + 'b) \<Rightarrow> py_error + 'b" where
  "bind_err m f = (case m of Inl e \<Rightarrow> Inl e | Inr x \<Rightarrow> f x)"

text \<open>
  \<^verbatim>\<open>a and b\<close> on conditions that can raise: \<open>b\<close> is evaluated only when \<open>a\<close> is true.
\<close>

definition py_and :: "py_error + bool \<Rightarrow> py_error + bool \<Rightarrow> py_error + bool" where
  "py_and a b = (case a of Inl e \<Rightarrow> Inl e | Inr x \<Rightarrow> if x then b else Inr False)"

definition py_test :: "(nat \<Rightarrow> bool) \<Rightarrow> py_error + nat \<Rightarrow> py_error + bool" where
  "py_test p m = (case m of Inl e \<Rightarrow> Inl e | Inr n \<Rightarrow> Inr (p n))"

section \<open>ffpe\_finder\<close>

text \<open>The value \<^verbatim>\<open>{"Forward Molecule": f_hits, "Reverse Molecule": r_hits}\<close> stored per allele.\<close>

record hit =
  hit_Forward_Molecule :: tally
  hit_Reverse_Molecule :: tally

text \<open>
  The dict returned by \<^verbatim>\<open>ffpe_finder\<close>, keys "FFPE Hits", "Mutation Hits",
  "Reference Hits" and "Other Mutation Hits"; during the loop it holds \<^verbatim>\<open>ffpe_dict\<close>,
  \<^verbatim>\<open>mut_dict\<close>, \<^verbatim>\<open>ref_dict\<close> and \<^verbatim>\<open>out_dict\<close>.
\<close>

record variant_hits =
  FFPE_Hits :: "(char, hit) dict"
  Mutation_Hits :: "(char, hit) dict"
  Reference_Hits :: "(char, hit) dict"
  Other_Mutation_Hits :: "(char, hit) dict"

text \<open>The entries "Forward Hits" and "Reverse Hits" of \<^verbatim>\<open>base_res\<close>, keyed by molecule key.\<close>

record base_res =
  Forward_Hits :: "(string, tally) dict"
  Reverse_Hits :: "(string, tally) dict"

text \<open>
  One pass of the body of the two nested loops. A KeyError raised by a condition leaves
  the dicts as they were; the last branch stores into \<^verbatim>\<open>mut_dict\<close>, as the source does.
\<close>

definition ffpe_step ::
  "tally \<Rightarrow> tally \<Rightarrow> char \<Rightarrow> char \<Rightarrow> variant_hits \<Rightarrow> py_error + variant_hits" where
  "ffpe_step f_hits r_hits var_call r_base d =
     (let h = \<lparr>hit_Forward_Molecule = f_hits, hit_Reverse_Molecule = r_hits\<rparr> in
      bind_err (py_and (py_test (\<lambda>n. n > 0) (dict_get f_hits var_call))
                       (py_test (\<lambda>n. n > 0) (dict_get r_hits var_call))) (\<lambda>c1.
      if c1 then Inr (d\<lparr>Mutation_Hits := AList.update var_call h (Mutation_Hits d)\<rparr>) else
      bind_err (py_and (py_test (\<lambda>n. n > 0) (dict_get f_hits var_call))
                       (py_test (\<lambda>n. n = 0) (dict_get r_hits var_call))) (\<lambda>c2.
      if c2 then Inr (d\<lparr>FFPE_Hits := AList.update var_call h (FFPE_Hits d)\<rparr>) else
      bind_err (py_and (py_test (\<lambda>n. n > 0) (dict_get r_hits var_call))
                       (py_test (\<lambda>n. n = 0) (dict_get f_hits var_call))) (\<lambda>c3.
      if c3 then Inr (d\<lparr>FFPE_Hits := AList.update var_call h (FFPE_Hits d)\<rparr>) else
      bind_err (py_and (py_test (\<lambda>n. n > 0) (dict_get f_hits r_base))
                       (py_test (\<lambda>n. n > 0) (dict_get r_hits r_base))) (\<lambda>c4.
      if c4 then Inr (d\<lparr>Reference_Hits := AList.update r_base h (Reference_Hits d)\<rparr>)
      else Inr (d\<lparr>Mutation_Hits := AList.update var_call h (Mutation_Hits d)\<rparr>))))))"

text \<open>
  The loops \<^verbatim>\<open>for var_call in ref_var: for r_base in ref_base\<close> over the pairs in that
  order; \<^verbatim>\<open>except KeyError\<close> ends them and keeps the dicts.
\<close>

fun ffpe_loop :: "tally \<Rightarrow> tally \<Rightarrow> (char \<times> char) list \<Rightarrow> variant_hits \<Rightarrow> variant_hits" where
  "ffpe_loop f_hits r_hits [] d = d"
| "ffpe_loop f_hits r_hits ((var_call, r_base) # rest) d =
     (case ffpe_step f_hits r_hits var_call r_base d of
        Inl e \<Rightarrow> d
      | Inr d' \<Rightarrow> ffpe_loop f_hits r_hits rest d')"

definition no_hits :: variant_hits where
  "no_hits = \<lparr>FFPE_Hits = [], Mutation_Hits = [], Reference_Hits = [], Other_Mutation_Hits = []\<rparr>"

definition ffpe_finder :: "base_res \<Rightarrow> char list \<Rightarrow> char list \<Rightarrow> string \<Rightarrow> variant_hits" where
  "ffpe_finder br ref_var ref_base umi_key =
     (case dict_get (Forward_Hits br) umi_key of
        Inl e \<Rightarrow> no_hits
      | Inr f_hits \<Rightarrow>
          (case dict_get (Reverse_Hits br) umi_key of
             Inl e \<Rightarrow> no_hits
           | Inr r_hits \<Rightarrow> ffpe_loop f_hits r_hits (List.product ref_var ref_base) no_hits))"

section \<open>pos\_checker\<close>

text \<open>\<^verbatim>\<open>str.split(c)\<close> for a separator of one character: the result is never empty.\<close>

fun py_split :: "char \<Rightarrow> string \<Rightarrow> string list" where
  "py_split c [] = [[]]"
| "py_split c (x # xs) =
     (if x = c then [] # py_split c xs
      else (x # hd (py_split c xs)) # tl (py_split c xs))"

datatype strand = Forward_Molecule_strand | Reverse_Molecule_strand

text \<open>The value \<^verbatim>\<open>{"Forward_Molecule": [], "Reverse_Molecule": []}\<close> of one molecule key.\<close>

record molecule =
  Forward_Molecule :: "read list"
  Reverse_Molecule :: "read list"

text \<open>
  Strand and molecule key of a read. \<^verbatim>\<open>brc[1]\<close> raises IndexError when the last
  \<^verbatim>\<open>_\<close>-separated field of the name holds no \<^verbatim>\<open>+\<close>.
\<close>

definition read_key :: "read \<Rightarrow> py_error + (strand \<times> string)" where
  "read_key rd =
     (let qn_spl = py_split CHR ''_'' (query_name rd);
          umi = last qn_spl;
          brc = py_split CHR ''+'' umi
      in if length brc < 2 then Inl IndexError
         else
          (let umi_l = brc ! 0; umi_r = brc ! 1 in
           if is_read1 rd then
             (if is_reverse rd then Inr (Reverse_Molecule_strand, umi_r @ ''_'' @ umi_l)
              else Inr (Forward_Molecule_strand, umi_l @ ''_'' @ umi_r))
           else
             (if is_reverse rd then Inr (Forward_Molecule_strand, umi_l @ ''_'' @ umi_r)
              else Inr (Reverse_Molecule_strand, umi_r @ ''_'' @ umi_l))))"

definition strand_append :: "strand \<Rightarrow> read \<Rightarrow> molecule \<Rightarrow> molecule" where
  "strand_append s rd m =
     (case s of
        Forward_Molecule_strand \<Rightarrow> m\<lparr>Forward_Molecule := Forward_Molecule m @ [rd]\<rparr>
      | Reverse_Molecule_strand \<Rightarrow> m\<lparr>Reverse_Molecule := Reverse_Molecule m @ [rd]\<rparr>)"

text \<open>
  \<^verbatim>\<open>umi_dict[umi_id][strand].append(read)\<close>, with the entry created on KeyError.
\<close>

definition add_read :: "string \<Rightarrow> strand \<Rightarrow> read \<Rightarrow> (string, molecule) dict \<Rightarrow> (string, molecule) dict" where
  "add_read umi_id s rd umi_dict =
     (case map_of umi_dict umi_id of
        Some m \<Rightarrow> AList.update umi_id (strand_append s rd m) umi_dict
      | None \<Rightarrow>
          AList.update umi_id
            (strand_append s rd \<lparr>Forward_Molecule = [], Reverse_Molecule = []\<rparr>) umi_dict)"

fun group_reads :: "read list \<Rightarrow> (string, molecule) dict \<Rightarrow> py_error + (string, molecule) dict" where
  "group_reads [] umi_dict = Inr umi_dict"
| "group_reads (rd # bam_lst) umi_dict =
     (case read_key rd of
        Inl e \<Rightarrow> Inl e
      | Inr (s, umi_id) \<Rightarrow> group_reads bam_lst (add_read umi_id s rd umi_dict))"

text \<open>The entry \<^verbatim>\<open>pos_res[umi_key]\<close>; an empty "Variant Hits" dict is \<open>None\<close>.\<close>

record pos_entry =
  Forward_Single :: tally
  Reverse_Single :: tally
  Variant_Hits :: "variant_hits option"

text \<open>
  The variables of the second loop of \<^verbatim>\<open>pos_checker\<close>. They are set once before the
  loop and keep their values from one molecule key to the next.
\<close>

record checker =
  f_hits :: "(string, tally) dict"
  r_hits :: "(string, tally) dict"
  f_s_hits :: tally
  r_s_hits :: tally
  var_dict :: "variant_hits option"
  pos_res :: "(string, pos_entry) dict"

text \<open>
  The body of the loop over molecule keys, with the source's chain of conditions:
  \<^verbatim>\<open>if f_lst: (if r_lst: ...) elif f_lst: ... elif r_lst: ...\<close>, then the assignment
  to \<^verbatim>\<open>pos_res[umi_key]\<close>.
\<close>

definition check_branch ::
  "int \<Rightarrow> char list \<Rightarrow> char list \<Rightarrow> string \<Rightarrow> molecule \<Rightarrow> checker \<Rightarrow> py_error + checker" where
  "check_branch record_pos ref_var ref_base umi_key m s =
     (let f_lst = Forward_Molecule m; r_lst = Reverse_Molecule m in
      if f_lst \<noteq> [] then
        (if r_lst \<noteq> [] then
           bind_err (pos_hits f_lst record_pos) (\<lambda>fh.
           bind_err (pos_hits r_lst record_pos) (\<lambda>rh.
             (let fhs = AList.update umi_key fh (f_hits s);
                  rhs = AList.update umi_key rh (r_hits s)
              in Inr (s\<lparr>f_hits := fhs, r_hits := rhs,
                        var_dict := Some (ffpe_finder \<lparr>Forward_Hits = fhs, Reverse_Hits = rhs\<rparr>
                                            ref_var ref_base umi_key)\<rparr>))))
         else Inr s)
      else if f_lst \<noteq> [] then
        (if r_lst = [] then bind_err (pos_hits f_lst record_pos) (\<lambda>h. Inr (s\<lparr>f_s_hits := h\<rparr>))
         else Inr s)
      else if r_lst \<noteq> [] then
        (if f_lst = [] then bind_err (pos_hits r_lst record_pos) (\<lambda>h. Inr (s\<lparr>r_s_hits := h\<rparr>))
         else Inr s)
      else Inr s)"

definition check_step ::
  "int \<Rightarrow> char list \<Rightarrow> char list \<Rightarrow> string \<Rightarrow> molecule \<Rightarrow> checker \<Rightarrow> py_error + checker" where
  "check_step record_pos ref_var ref_base umi_key m s =
     bind_err (check_branch record_pos ref_var ref_base umi_key m s) (\<lambda>s'.
       Inr (s'\<lparr>pos_res :=
                 AList.update umi_key
                   \<lparr>Forward_Single = f_s_hits s', Reverse_Single = r_s_hits s',
                    Variant_Hits = var_dict s'\<rparr> (pos_res s')\<rparr>))"

text \<open>
  The loop returns the exception that ended it, if any, with the variables as they
  were when it was raised.
\<close>

fun check_loop ::
  "int \<Rightarrow> char list \<Rightarrow> char list \<Rightarrow> (string, molecule) dict \<Rightarrow> checker \<Rightarrow> py_error option \<times> checker" where
  "check_loop record_pos ref_var ref_base [] s = (None, s)"
| "check_loop record_pos ref_var ref_base ((umi_key, m) # rest) s =
     (case check_step record_pos ref_var ref_base umi_key m s of
        Inl e \<Rightarrow> (Some e, s)
      | Inr s' \<Rightarrow> check_loop record_pos ref_var ref_base rest s')"

text \<open>
  \<^verbatim>\<open>pos_checker\<close>. The comprehension \<^verbatim>\<open>{k: v for k, v in umi_dict.items() if v}\<close> keeps
  every entry, each value being a dict of two keys. \<^verbatim>\<open>except KeyError\<close> returns
  \<^verbatim>\<open>pos_res\<close> as it is; any other exception leaves the function.
\<close>

definition pos_checker ::
  "read list \<Rightarrow> int \<Rightarrow> char list \<Rightarrow> char list \<Rightarrow> py_error + (string, pos_entry) dict" where
  "pos_checker bam_lst record_pos ref_var ref_base =
     (case group_reads bam_lst [] of
        Inl KeyError \<Rightarrow> Inr []
      | Inl e \<Rightarrow> Inl e
      | Inr umi_dict \<Rightarrow>
          (case check_loop record_pos ref_var ref_base umi_dict
                  \<lparr>f_hits = [], r_hits = [], f_s_hits = [], r_s_hits = [],
                   var_dict = None, pos_res = []\<rparr> of
             (None, s) \<Rightarrow> Inr (pos_res s)
           | (Some KeyError, s) \<Rightarrow> Inr (pos_res s)
           | (Some e, s) \<Rightarrow> Inl e))"


section \<open>sup\_count\<close>

text \<open>
  \<^verbatim>\<open>ref_sup\<close> and \<^verbatim>\<open>alt_sup\<close>: the dicts "Forward Single", "Reverse Single" and "Paired",
  each from allele to count.
\<close>

record support =
  sup_Forward_Single :: "(char, nat) dict"
  sup_Reverse_Single :: "(char, nat) dict"
  sup_Paired :: "(char, nat) dict"

record pos_sup =
  Variant :: support
  Reference :: support

text \<open>\<^verbatim>\<open>d[k] += x\<close>.\<close>

definition dict_add :: "('k, nat) dict \<Rightarrow> 'k \<Rightarrow> nat \<Rightarrow> py_error + ('k, nat) dict" where
  "dict_add d k x = bind_err (dict_get d k) (\<lambda>v. Inr (AList.update k (v + x) d))"

definition forward_single_add :: "char \<Rightarrow> tally \<Rightarrow> support \<Rightarrow> py_error + support" where
  "forward_single_add a t s =
     (if dict_in a t then
        bind_err (dict_get t a) (\<lambda>x.
        bind_err (dict_add (sup_Forward_Single s) a x) (\<lambda>d.
        Inr (s\<lparr>sup_Forward_Single := d\<rparr>)))
      else Inr s)"

definition reverse_single_add :: "char \<Rightarrow> tally \<Rightarrow> support \<Rightarrow> py_error + support" where
  "reverse_single_add a t s =
     (if dict_in a t then
        bind_err (dict_get t a) (\<lambda>x.
        bind_err (dict_add (sup_Reverse_Single s) a x) (\<lambda>d.
        Inr (s\<lparr>sup_Reverse_Single := d\<rparr>)))
      else Inr s)"

text \<open>
  The block repeated for each category: when the category dict is not empty and holds
  the allele, add the allele's forward count and then its reverse count to "Paired".
\<close>

definition paired_add :: "char \<Rightarrow> (char, hit) dict \<Rightarrow> support \<Rightarrow> py_error + support" where
  "paired_add a hits s =
     (if hits \<noteq> [] then
        (if dict_in a hits then
           bind_err (dict_get hits a) (\<lambda>h.
           bind_err (dict_get (hit_Forward_Molecule h) a) (\<lambda>x.
           bind_err (dict_add (sup_Paired s) a x) (\<lambda>p1.
           bind_err (dict_get (hit_Reverse_Molecule h) a) (\<lambda>y.
           bind_err (dict_add p1 a y) (\<lambda>p2.
           Inr (s\<lparr>sup_Paired := p2\<rparr>))))))
         else Inr s)
      else Inr s)"

text \<open>The body of the loop over molecule keys for an alternate allele.\<close>

definition alt_entry :: "char \<Rightarrow> pos_entry \<Rightarrow> support \<Rightarrow> py_error + support" where
  "alt_entry alt e s =
     bind_err (if Forward_Single e \<noteq> [] then forward_single_add alt (Forward_Single e) s
               else Inr s) (\<lambda>s1.
     bind_err (if Reverse_Single e \<noteq> [] then reverse_single_add alt (Reverse_Single e) s1
               else Inr s1) (\<lambda>s2.
     (case Variant_Hits e of
        None \<Rightarrow> Inr s2
      | Some vh \<Rightarrow>
          bind_err (paired_add alt (FFPE_Hits vh) s2) (\<lambda>s3.
          bind_err (paired_add alt (Mutation_Hits vh) s3) (\<lambda>s4.
          bind_err (paired_add alt (Reference_Hits vh) s4) (\<lambda>s5.
          paired_add alt (Other_Mutation_Hits vh) s5))))))"

text \<open>
  The "Mutation Hits" block of the reference loop reads
  \<^verbatim>\<open>["Mutation Hits"]["Forward Molecule"][ref]\<close>: the key "Forward Molecule" is looked up
  in a dict whose keys are alleles of one character, which raises KeyError.
\<close>

definition ref_mutation_add :: "char \<Rightarrow> (char, hit) dict \<Rightarrow> support \<Rightarrow> py_error + support" where
  "ref_mutation_add a hits s =
     (if hits \<noteq> [] then
        (if dict_in a hits then
           bind_err (dict_get hits a) (\<lambda>h.
             if hit_Forward_Molecule h \<noteq> [] then Inl KeyError
             else if hit_Reverse_Molecule h \<noteq> [] then Inl KeyError
             else Inr s)
         else Inr s)
      else Inr s)"

text \<open>
  The body of the loop over molecule keys for a reference base: an \<^verbatim>\<open>if/elif/elif\<close>
  chain over "Forward Single", "Reverse Single" and "Variant Hits", and in the last an
  \<^verbatim>\<open>elif\<close> that ties "Other Mutation Hits" to an empty "Reference Hits".
\<close>

definition ref_entry :: "char \<Rightarrow> pos_entry \<Rightarrow> support \<Rightarrow> py_error + support" where
  "ref_entry rf e s =
     (if Forward_Single e \<noteq> [] then forward_single_add rf (Forward_Single e) s
      else if Reverse_Single e \<noteq> [] then reverse_single_add rf (Reverse_Single e) s
      else
        (case Variant_Hits e of
           None \<Rightarrow> Inr s
         | Some vh \<Rightarrow>
             bind_err (paired_add rf (FFPE_Hits vh) s) (\<lambda>s1.
             bind_err (ref_mutation_add rf (Mutation_Hits vh) s1) (\<lambda>s2.
             if Reference_Hits vh \<noteq> [] then paired_add rf (Reference_Hits vh) s2
             else if Other_Mutation_Hits vh \<noteq> [] then paired_add rf (Other_Mutation_Hits vh) s2
             else Inr s2))))"

fun entries_loop ::
  "(pos_entry \<Rightarrow> support \<Rightarrow> py_error + support) \<Rightarrow> (string, pos_entry) dict \<Rightarrow> support
     \<Rightarrow> py_error + support" where
  "entries_loop step [] s = Inr s"
| "entries_loop step ((umi_key, e) # rest) s =
     (case step e s of
        Inl err \<Rightarrow> Inl err
      | Inr s' \<Rightarrow> entries_loop step rest s')"

text \<open>The three assignments of 0 that open the pass for an allele.\<close>

definition sup_init :: "char \<Rightarrow> support \<Rightarrow> support" where
  "sup_init a s =
     \<lparr>sup_Forward_Single = AList.update a 0 (sup_Forward_Single s),
      sup_Reverse_Single = AList.update a 0 (sup_Reverse_Single s),
      sup_Paired = AList.update a 0 (sup_Paired s)\<rparr>"

fun alleles_loop ::
  "(char \<Rightarrow> pos_entry \<Rightarrow> support \<Rightarrow> py_error + support) \<Rightarrow> char list
     \<Rightarrow> (string, pos_entry) dict \<Rightarrow> support \<Rightarrow> py_error + support" where
  "alleles_loop step [] input_dict s = Inr s"
| "alleles_loop step (a # rest) input_dict s =
     (case entries_loop (step a) input_dict (sup_init a s) of
        Inl err \<Rightarrow> Inl err
      | Inr s' \<Rightarrow> alleles_loop step rest input_dict s')"

definition no_support :: support where
  "no_support = \<lparr>sup_Forward_Single = [], sup_Reverse_Single = [], sup_Paired = []\<rparr>"

definition sup_count :: "(string, pos_entry) dict \<Rightarrow> char list \<Rightarrow> char list \<Rightarrow> py_error + pos_sup" where
  "sup_count input_dict n_ref n_alt =
     (case alleles_loop alt_entry n_alt input_dict no_support of
        Inl err \<Rightarrow> Inl err
      | Inr alt_sup \<Rightarrow>
          (case alleles_loop ref_entry n_ref input_dict no_support of
             Inl err \<Rightarrow> Inl err
           | Inr ref_sup \<Rightarrow> Inr \<lparr>Variant = alt_sup, Reference = ref_sup\<rparr>))"

section \<open>vcf\_extract\<close>

text \<open>
  A pysam variant record. \<open>rec_alts\<close> is \<^verbatim>\<open>record.alts\<close>, which is \<^verbatim>\<open>None\<close> for a record
  without alternate alleles; \<open>rec_samples\<close> maps a sample name to its format fields;
  \<open>rec_filter\<close> holds the names of the filters set on the record.
\<close>

record vcf_record =
  rec_chrom :: string
  rec_pos :: int
  rec_ref :: string
  rec_alts :: "string list option"
  rec_samples :: "(string, (string, string) dict) dict"
  rec_filter :: "string list"

text \<open>\<^verbatim>\<open>str(n)\<close> for a count.\<close>

fun str_nat :: "nat \<Rightarrow> string" where
  "str_nat n =
     (if n < 10 then [''0123456789'' ! n]
      else str_nat (n div 10) @ [''0123456789'' ! (n mod 10)])"

declare str_nat.simps [simp del]

definition fmt_support :: "support \<Rightarrow> char \<Rightarrow> py_error + string" where
  "fmt_support s a =
     bind_err (dict_get (sup_Paired s) a) (\<lambda>p.
     bind_err (dict_get (sup_Forward_Single s) a) (\<lambda>f.
     bind_err (dict_get (sup_Reverse_Single s) a) (\<lambda>r.
     Inr (str_nat p @ '':'' @ str_nat f @ '':'' @ str_nat r))))"

text \<open>
  The loops that set \<^verbatim>\<open>var_sd\<close> and \<^verbatim>\<open>ref_sd\<close>: each pass overwrites the string, and
  \<open>None\<close> is the empty list the variable holds before the first pass.
\<close>

fun fmt_loop :: "support \<Rightarrow> char list \<Rightarrow> string option \<Rightarrow> py_error + string option" where
  "fmt_loop s [] sd = Inr sd"
| "fmt_loop s (a # rest) sd =
     (case fmt_support s a of
        Inl e \<Rightarrow> Inl e
      | Inr x \<Rightarrow> fmt_loop s rest (Some x))"

text \<open>
  \<^verbatim>\<open>n_cop.samples[sample]['UMI'] = var_sd + ref_sd\<close> for every sample. Adding a string
  to the empty list is a TypeError; two empty lists give a list, which is not a value
  of the String field, and the model raises TypeError there too. Both need an allele
  string without characters.
\<close>

definition set_umi ::
  "string option \<Rightarrow> string option \<Rightarrow> (string, (string, string) dict) dict
     \<Rightarrow> py_error + (string, (string, string) dict) dict" where
  "set_umi var_sd ref_sd smp =
     (if smp = [] then Inr []
      else
        (case (var_sd, ref_sd) of
           (Some v, Some r) \<Rightarrow> Inr (map (\<lambda>(name, fields). (name, AList.update ''UMI'' (v @ r) fields)) smp)
         | _ \<Rightarrow> Inl TypeError))"

text \<open>The loop that looks for a molecule key whose "FFPE Hits" is not empty.\<close>

fun ffpe_found :: "(string, pos_entry) dict \<Rightarrow> bool" where
  "ffpe_found [] = False"
| "ffpe_found ((umi_key, e) # rest) =
     (case Variant_Hits e of
        None \<Rightarrow> ffpe_found rest
      | Some vh \<Rightarrow> if FFPE_Hits vh \<noteq> [] then True else ffpe_found rest)"

text \<open>
  \<^verbatim>\<open>n_cop.filter.add(key)\<close> of pysam, for a key other than PASS: a filter that is set
  already is not set twice, a lone PASS gives way to the new filter, and otherwise the
  new filter goes to the end.
\<close>

definition filter_add :: "string \<Rightarrow> string list \<Rightarrow> string list" where
  "filter_add key flt =
     (if key \<in> set flt then flt
      else if flt = [''PASS''] then [key]
      else flt @ [key])"

text \<open>
  The body of the loop of \<^verbatim>\<open>vcf_extract\<close> for one record; \<open>bam_fetch\<close> is
  \<^verbatim>\<open>bam_file.fetch\<close>, which gives the reads of a region or raises (a ValueError for a
  contig the file does not have or a negative start); nothing in \<^verbatim>\<open>vcf_extract\<close>
  catches what it raises. The result \<open>Inr None\<close> is the \<^verbatim>\<open>continue\<close>, which leaves
  the record unwritten; \<open>Inr (Some r)\<close> is the record given to \<^verbatim>\<open>n_vcf.write\<close>.
  \<^verbatim>\<open>set(s)\<close> is \<^const>\<open>remdups\<close>: only its length and, when that is 1, its element
  are used.
\<close>

definition vcf_record_step ::
  "(string \<Rightarrow> int \<Rightarrow> int \<Rightarrow> py_error + read list) \<Rightarrow> vcf_record
     \<Rightarrow> py_error + vcf_record option" where
  "vcf_record_step bam_fetch record =
     (let n_cop = record;
          n_pos = rec_pos record;
          record_pos = n_pos - 1;
          n_ref = remdups (rec_ref record)
      in case rec_alts record of
           None \<Rightarrow> Inl TypeError
         | Some alts \<Rightarrow>
             (let n_alt = remdups (concat alts) in
              if length n_ref > 1 \<or> length n_alt > 1 then Inr None
              else
                (bind_err (bam_fetch ''chr8'' record_pos (record_pos + 1)) (\<lambda>bam_lst.
                 bind_err (pos_checker bam_lst record_pos n_alt n_ref) (\<lambda>ffpe_data.
                 bind_err (sup_count ffpe_data n_ref n_alt) (\<lambda>pos_sup.
                 bind_err (fmt_loop (Variant pos_sup) n_alt None) (\<lambda>var_sd.
                 bind_err (fmt_loop (Reference pos_sup) n_ref None) (\<lambda>ref_sd.
                 bind_err (set_umi var_sd ref_sd (rec_samples n_cop)) (\<lambda>smp.
                 Inr (Some (n_cop\<lparr>rec_samples := smp,
                                  rec_filter :=
                                    (if ffpe_found ffpe_data
                                     then filter_add ''FFPE'' (rec_filter n_cop)
                                     else rec_filter n_cop)\<rparr>)))))))))))"

text \<open>
  \<^verbatim>\<open>vcf_extract\<close>: the records written to the output, in order, and the exception that
  ended the run, if any.
\<close>

fun vcf_extract ::
  "(string \<Rightarrow> int \<Rightarrow> int \<Rightarrow> py_error + read list) \<Rightarrow> vcf_record list
     \<Rightarrow> vcf_record list \<times> py_error option" where
  "vcf_extract bam_fetch [] = ([], None)"
| "vcf_extract bam_fetch (record # rest) =
     (case vcf_record_step bam_fetch record of
        Inl e \<Rightarrow> ([], Some e)
      | Inr None \<Rightarrow> vcf_extract bam_fetch rest
      | Inr (Some n_cop) \<Rightarrow>
          (case vcf_extract bam_fetch rest of
             (written, err) \<Rightarrow> (n_cop # written, err)))"


section \<open>What an entry adds to the counts\<close>

text \<open>The count a dict holds for an allele, 0 when it does not hold the allele.\<close>

definition count_of :: "(char, nat) dict \<Rightarrow> char \<Rightarrow> nat" where
  "count_of d a = (case map_of d a of None \<Rightarrow> 0 | Some n \<Rightarrow> n)"

text \<open>The state of the counters once the pass for an allele has set its three counts to 0.\<close>

definition has_allele :: "char \<Rightarrow> support \<Rightarrow> bool" where
  "has_allele a s = (dict_in a (sup_Forward_Single s) \<and> dict_in a (sup_Reverse_Single s)
                     \<and> dict_in a (sup_Paired s))"

text \<open>Adding to the three counts of an allele.\<close>

definition bump :: "char \<Rightarrow> nat \<times> nat \<times> nat \<Rightarrow> support \<Rightarrow> support" where
  "bump a c s =
     (case c of (f, r, p) \<Rightarrow>
        \<lparr>sup_Forward_Single =
           AList.update a (count_of (sup_Forward_Single s) a + f) (sup_Forward_Single s),
         sup_Reverse_Single =
           AList.update a (count_of (sup_Reverse_Single s) a + r) (sup_Reverse_Single s),
         sup_Paired = AList.update a (count_of (sup_Paired s) a + p) (sup_Paired s)\<rparr>)"

text \<open>
  What one category dict adds to "Paired" for an allele: nothing when it does not hold
  the allele, else the forward plus the reverse count; \<open>None\<close> is the KeyError of an
  allele that a tally lacks.
\<close>

definition hit_sum :: "char \<Rightarrow> (char, hit) dict \<Rightarrow> nat option" where
  "hit_sum a hits =
     (case map_of hits a of
        None \<Rightarrow> Some 0
      | Some h \<Rightarrow>
          (case (map_of (hit_Forward_Molecule h) a, map_of (hit_Reverse_Molecule h) a) of
             (Some x, Some y) \<Rightarrow> Some (x + y)
           | _ \<Rightarrow> None))"

definition opt_add :: "nat option \<Rightarrow> nat option \<Rightarrow> nat option" where
  "opt_add x y = (case (x, y) of (Some m, Some n) \<Rightarrow> Some (m + n) | _ \<Rightarrow> None)"

text \<open>
  What one entry of \<^verbatim>\<open>pos_res\<close> adds to the counts of an alternate allele and of a
  reference base, read off the loops of \<^verbatim>\<open>sup_count\<close>; \<open>None\<close> when the entry makes
  the loop raise KeyError.
\<close>

definition alt_contrib :: "char \<Rightarrow> pos_entry \<Rightarrow> (nat \<times> nat \<times> nat) option" where
  "alt_contrib a e =
     map_option (\<lambda>p. (count_of (Forward_Single e) a, count_of (Reverse_Single e) a, p))
       (case Variant_Hits e of
          None \<Rightarrow> Some 0
        | Some vh \<Rightarrow>
            opt_add (hit_sum a (FFPE_Hits vh))
              (opt_add (hit_sum a (Mutation_Hits vh))
                 (opt_add (hit_sum a (Reference_Hits vh)) (hit_sum a (Other_Mutation_Hits vh)))))"

definition ref_contrib :: "char \<Rightarrow> pos_entry \<Rightarrow> (nat \<times> nat \<times> nat) option" where
  "ref_contrib a e =
     (if Forward_Single e \<noteq> [] then Some (count_of (Forward_Single e) a, 0, 0)
      else if Reverse_Single e \<noteq> [] then Some (0, count_of (Reverse_Single e) a, 0)
      else
        map_option (\<lambda>p. (0, 0, p))
          (case Variant_Hits e of
             None \<Rightarrow> Some 0
           | Some vh \<Rightarrow>
               opt_add (hit_sum a (FFPE_Hits vh))
                 (opt_add
                    (case map_of (Mutation_Hits vh) a of
                       None \<Rightarrow> Some 0
                     | Some h \<Rightarrow>
                         if hit_Forward_Molecule h \<noteq> [] \<or> hit_Reverse_Molecule h \<noteq> []
                         then None else Some 0)
                    (if Reference_Hits vh \<noteq> [] then hit_sum a (Reference_Hits vh)
                     else hit_sum a (Other_Mutation_Hits vh)))))"

section \<open>Example inputs\<close>

text \<open>
  Reads of one base aligned at coordinate 0. The first two carry the barcodes AAA and
  CCC and fall on opposite strands of the molecule \<open>AAA_CCC\<close>.
\<close>

definition read_fwd_C :: read where
  "read_fwd_C = \<lparr>query_name = ''r_AAA+CCC'', is_read1 = True, is_reverse = False,
                 query_sequence = ''C'', reference_positions = [Some 0]\<rparr>"

definition read_rev_T :: read where
  "read_rev_T = \<lparr>query_name = ''r_CCC+AAA'', is_read1 = True, is_reverse = True,
                 query_sequence = ''T'', reference_positions = [Some 0]\<rparr>"

text \<open>A read whose name holds no \<^verbatim>\<open>+\<close> after the last \<^verbatim>\<open>_\<close>.\<close>

definition read_no_plus :: read where
  "read_no_plus = \<lparr>query_name = ''r_AAACCC'', is_read1 = True, is_reverse = False,
                   query_sequence = ''C'', reference_positions = [Some 0]\<rparr>"

text \<open>A read with a soft-clipped first base and a lowercase base aligned at coordinate 5.\<close>

definition read_soft :: read where
  "read_soft = \<lparr>query_name = ''s_AAA+CCC'', is_read1 = True, is_reverse = False,
                query_sequence = ''Ca'', reference_positions = [None, Some 5]\<rparr>"

text \<open>
  An alignment file whose only contig is chr8, with the given reads at coordinate 0.
\<close>

definition bam_at_0 :: "read list \<Rightarrow> string \<Rightarrow> int \<Rightarrow> int \<Rightarrow> py_error + read list" where
  "bam_at_0 reads contig start stop =
     (if contig \<noteq> ''chr8'' \<or> start < 0 then Inl ValueError
      else if start = 0 \<and> stop = 1 then Inr reads
      else Inr [])"

text \<open>A substitution T>C at position 1 of chr1, and a deletion TA>T at the same place.\<close>

definition snv_record :: vcf_record where
  "snv_record = \<lparr>rec_chrom = ''chr1'', rec_pos = 1, rec_ref = ''T'', rec_alts = Some [''C''],
                 rec_samples = [(''S1'', [(''GT'', ''0/1'')])], rec_filter = []\<rparr>"

definition indel_record :: vcf_record where
  "indel_record = \<lparr>rec_chrom = ''chr1'', rec_pos = 1, rec_ref = ''TA'', rec_alts = Some [''T''],
                   rec_samples = [(''S1'', [(''GT'', ''0/1'')])], rec_filter = []\<rparr>"

text \<open>Two reads of the molecule \<open>AAA_CCC\<close>, one on each strand, that both show G.\<close>

definition read_fwd_G :: read where
  "read_fwd_G = \<lparr>query_name = ''r_AAA+CCC'', is_read1 = True, is_reverse = False,
                 query_sequence = ''G'', reference_positions = [Some 0]\<rparr>"

definition read_rev_G :: read where
  "read_rev_G = \<lparr>query_name = ''r_CCC+AAA'', is_read1 = True, is_reverse = True,
                 query_sequence = ''G'', reference_positions = [Some 0]\<rparr>"

text \<open>
  Reads of a second molecule, \<open>GGG_TTT\<close>, that show C: one for its forward strand
  and one for its reverse strand. Used one at a time, each makes a singleton group.
\<close>

definition read_fwd_single :: read where
  "read_fwd_single = \<lparr>query_name = ''r_GGG+TTT'', is_read1 = True, is_reverse = False,
                      query_sequence = ''C'', reference_positions = [Some 0]\<rparr>"

definition read_rev_single :: read where
  "read_rev_single = \<lparr>query_name = ''r_TTT+GGG'', is_read1 = True, is_reverse = True,
                      query_sequence = ''C'', reference_positions = [Some 0]\<rparr>"

text \<open>The tallies of one read that shows C, T or G.\<close>

definition tally_C :: tally where
  "tally_C = [(CHR ''A'', 0), (CHR ''T'', 0), (CHR ''G'', 0), (CHR ''C'', 1),
              (CHR ''N'', 0), (CHR ''-'', 0)]"

definition tally_T :: tally where
  "tally_T = [(CHR ''A'', 0), (CHR ''T'', 1), (CHR ''G'', 0), (CHR ''C'', 0),
              (CHR ''N'', 0), (CHR ''-'', 0)]"

definition tally_G :: tally where
  "tally_G = [(CHR ''A'', 0), (CHR ''T'', 0), (CHR ''G'', 1), (CHR ''C'', 0),
              (CHR ''N'', 0), (CHR ''-'', 0)]"

text \<open>
  The entry of \<^verbatim>\<open>pos_res\<close> for a paired molecule with C on the forward strand and T on
  the reverse strand, classified for the alternate allele C.
\<close>

definition ffpe_entry :: pos_entry where
  "ffpe_entry =
     \<lparr>Forward_Single = [], Reverse_Single = [],
      Variant_Hits = Some
        \<lparr>FFPE_Hits = [(CHR ''C'', \<lparr>hit_Forward_Molecule = tally_C,
                                    hit_Reverse_Molecule = tally_T\<rparr>)],
         Mutation_Hits = [], Reference_Hits = [], Other_Mutation_Hits = []\<rparr>\<rparr>"

text \<open>The support of one allele: "Paired", "Forward Single" and "Reverse Single".\<close>

definition counts :: "nat \<Rightarrow> nat \<Rightarrow> nat \<Rightarrow> char \<Rightarrow> support" where
  "counts p f r a =
     \<lparr>sup_Forward_Single = [(a, f)], sup_Reverse_Single = [(a, r)], sup_Paired = [(a, p)]\<rparr>"

text \<open>The number of reads counted so far by \<^verbatim>\<open>pos_hits\<close>.\<close>

definition counted :: "counters \<Rightarrow> nat" where
  "counted c = n_a c + n_t c + n_g c + n_c c + n_n c + n_d c"

section \<open>Properties of pos\_hits\<close>

lemma list_index_Some_less: "list_index xs x = Some i \<Longrightarrow> i < length xs"
  by (induction xs arbitrary: i) (auto split: if_splits)

lemma list_index_None_iff: "list_index xs x = None \<longleftrightarrow> x \<notin> set xs"
  by (induction xs) auto

lemma list_index_first:
  "i < length xs \<Longrightarrow> xs ! i = x \<Longrightarrow> \<forall>j<i. xs ! j \<noteq> x \<Longrightarrow> list_index xs x = Some i"
proof (induction xs arbitrary: i)
  case Nil
  then show ?case by simp
next
  case (Cons y ys)
  show ?case
  proof (cases i)
    case 0
    with Cons.prems show ?thesis by simp
  next
    case (Suc k)
    from Cons.prems Suc have "y \<noteq> x" by auto
    moreover have "list_index ys x = Some k"
    proof (rule Cons.IH)
      show "k < length ys" using Cons.prems Suc by simp
      show "ys ! k = x" using Cons.prems Suc by simp
      show "\<forall>j<k. ys ! j \<noteq> x"
      proof (intro allI impI)
        fix j assume "j < k"
        then have "Suc j < i" using Suc by simp
        with Cons.prems(3) have "(y # ys) ! Suc j \<noteq> x" by blast
        then show "ys ! j \<noteq> x" by simp
      qed
    qed
    ultimately show ?thesis using Suc by simp
  qed
qed

lemma pos_hits_step_counted:
  "length (reference_positions rd) \<le> length (query_sequence rd) \<Longrightarrow>
   \<exists>c'. pos_hits_step record_pos rd c = Inr c' \<and> counted c' = Suc (counted c)"
  by (auto simp: pos_hits_step_def counted_def Let_def dest!: list_index_Some_less
           split: option.splits)

lemma pos_hits_loop_counted:
  "\<forall>rd \<in> set inp_lst. length (reference_positions rd) \<le> length (query_sequence rd) \<Longrightarrow>
   \<exists>c'. pos_hits_loop record_pos inp_lst c = Inr c' \<and> counted c' = counted c + length inp_lst"
proof (induction inp_lst arbitrary: c)
  case Nil
  then show ?case by simp
next
  case (Cons rd rest)
  then obtain c1 where c1: "pos_hits_step record_pos rd c = Inr c1" "counted c1 = Suc (counted c)"
    using pos_hits_step_counted[of rd record_pos c] by auto
  from Cons obtain c2 where
    "pos_hits_loop record_pos rest c1 = Inr c2" "counted c2 = counted c1 + length rest"
    by (meson list.set_intros(2))
  with c1 show ?case by simp
qed



text \<open>
  Claim C6. Let \<open>i\<close> be the index at which the positions of a read hold the coordinate
  (the first such index, which for an alignment is the only one), with a base at that
  index. Then the read is counted, once, under the base at index \<open>i\<close> of its sequence
  when that base is one of A, T, G, C, and under N for any other character, a lowercase
  letter included. A read whose positions do not hold the coordinate is counted under
  the gap symbol -.
\<close>

theorem pos_hits_call:
  "(i < length (reference_positions rd) \<and> reference_positions rd ! i = Some record_pos
      \<and> (\<forall>j<i. reference_positions rd ! j \<noteq> Some record_pos)
      \<and> i < length (query_sequence rd)
    \<longrightarrow> pos_hits [rd] record_pos =
          Inr (map (\<lambda>k. (k, if k = (if query_sequence rd ! i \<in> set ''ATGC''
                                     then query_sequence rd ! i else CHR ''N'')
                             then 1 else 0)) ''ATGCN-''))
   \<and> (Some record_pos \<notin> set (reference_positions rd)
    \<longrightarrow> pos_hits [rd] record_pos =
          Inr (map (\<lambda>k. (k, if k = CHR ''-'' then 1 else 0)) ''ATGCN-''))"
proof (intro conjI impI)
  assume "i < length (reference_positions rd) \<and> reference_positions rd ! i = Some record_pos
      \<and> (\<forall>j<i. reference_positions rd ! j \<noteq> Some record_pos)
      \<and> i < length (query_sequence rd)"
  then have ix: "list_index (reference_positions rd) (Some record_pos) = Some i"
    and len: "i < length (query_sequence rd)"
    using list_index_first[of i "reference_positions rd" "Some record_pos"] by auto
  show "pos_hits [rd] record_pos =
          Inr (map (\<lambda>k. (k, if k = (if query_sequence rd ! i \<in> set ''ATGC''
                                     then query_sequence rd ! i else CHR ''N'')
                             then 1 else 0)) ''ATGCN-'')"
    using ix len by (simp add: pos_hits_def pos_hits_step_def pos_dict_def Let_def)
next
  assume "Some record_pos \<notin> set (reference_positions rd)"
  then have "list_index (reference_positions rd) (Some record_pos) = None"
    by (simp add: list_index_None_iff)
  then show "pos_hits [rd] record_pos =
          Inr (map (\<lambda>k. (k, if k = CHR ''-'' then 1 else 0)) ''ATGCN-'')"
    by (simp add: pos_hits_def pos_hits_step_def pos_dict_def)
qed

theorem pos_hits_call_witness:
  "pos_hits [read_rev_T] 0 =
     Inr [(CHR ''A'', 0), (CHR ''T'', 1), (CHR ''G'', 0), (CHR ''C'', 0), (CHR ''N'', 0), (CHR ''-'', 0)]
   \<and> pos_hits [read_soft] 5 =
     Inr [(CHR ''A'', 0), (CHR ''T'', 0), (CHR ''G'', 0), (CHR ''C'', 0), (CHR ''N'', 1), (CHR ''-'', 0)]
   \<and> pos_hits [read_soft] 6 =
     Inr [(CHR ''A'', 0), (CHR ''T'', 0), (CHR ''G'', 0), (CHR ''C'', 0), (CHR ''N'', 0), (CHR ''-'', 1)]"
proof -
  have a: "pos_hits [read_rev_T] 0 =
     Inr [(CHR ''A'', 0), (CHR ''T'', 1), (CHR ''G'', 0), (CHR ''C'', 0), (CHR ''N'', 0), (CHR ''-'', 0)]"
    using pos_hits_call[of 0 read_rev_T 0] by (simp add: read_rev_T_def)
  have b: "pos_hits [read_soft] 5 =
     Inr [(CHR ''A'', 0), (CHR ''T'', 0), (CHR ''G'', 0), (CHR ''C'', 0), (CHR ''N'', 1), (CHR ''-'', 0)]"
    using pos_hits_call[of 1 read_soft 5] by (simp add: read_soft_def less_Suc_eq)
  have c: "pos_hits [read_soft] 6 =
     Inr [(CHR ''A'', 0), (CHR ''T'', 0), (CHR ''G'', 0), (CHR ''C'', 0), (CHR ''N'', 0), (CHR ''-'', 1)]"
    using pos_hits_call[of 0 read_soft 6] by (simp add: read_soft_def)
  from a b c show ?thesis by simp
qed

section \<open>Properties of pos\_checker\<close>

lemma py_split_length: "length (py_split c s) = Suc (count_list s c)"
proof (induction s)
  case Nil
  then show ?case by simp
next
  case (Cons x xs)
  then have "py_split c xs \<noteq> []" by auto
  then have "length (tl (py_split c xs)) = count_list xs c"
    using Cons by simp
  with Cons show ?case by auto
qed

lemma py_split_short_iff: "length (py_split c s) < 2 \<longleftrightarrow> c \<notin> set s"
  by (simp add: py_split_length count_list_0_iff)

lemma read_key_error: "read_key rd = Inl e \<Longrightarrow> e = IndexError"
  by (auto simp: read_key_def Let_def split: if_splits)

lemma read_key_IndexError_iff:
  "read_key rd = Inl IndexError \<longleftrightarrow> CHR ''+'' \<notin> set (last (py_split CHR ''_'' (query_name rd)))"
  by (auto simp: read_key_def Let_def py_split_short_iff[symmetric]
           simp del: py_split.simps split: if_splits)

lemma group_reads_error:
  "rd \<in> set bam_lst \<Longrightarrow> read_key rd = Inl IndexError \<Longrightarrow> group_reads bam_lst d = Inl IndexError"
proof (induction bam_lst arbitrary: d)
  case Nil
  then show ?case by simp
next
  case (Cons x xs)
  show ?case
  proof (cases "read_key x")
    case (Inl e)
    then show ?thesis using read_key_error[of x e] by simp
  next
    case (Inr p)
    with Cons.prems have "rd \<in> set xs" by auto
    with Cons.IH Cons.prems(2) Inr show ?thesis by (cases p) simp
  qed
qed

text \<open>
  Claim C4, as the code has it. The UMI field of a read is the text after the last \<^verbatim>\<open>_\<close>
  of its name (the whole name when there is no \<^verbatim>\<open>_\<close>). When some read at the position
  has a UMI field without \<^verbatim>\<open>+\<close>, \<^verbatim>\<open>pos_checker\<close> ends with an IndexError, which its
  \<^verbatim>\<open>except KeyError\<close> does not catch: no read is skipped and none is grouped or
  classified.
\<close>

theorem pos_checker_unparseable:
  assumes "rd \<in> set bam_lst"
    and "CHR ''+'' \<notin> set (last (py_split CHR ''_'' (query_name rd)))"
  shows "pos_checker bam_lst record_pos ref_var ref_base = Inl IndexError"
proof -
  have "read_key rd = Inl IndexError" using assms(2) by (simp add: read_key_IndexError_iff)
  with assms(1) have "group_reads bam_lst [] = Inl IndexError" by (rule group_reads_error)
  then show ?thesis by (simp add: pos_checker_def)
qed

theorem pos_checker_unparseable_witness:
  "read_no_plus \<in> set [read_rev_T, read_no_plus]
   \<and> CHR ''+'' \<notin> set (last (py_split CHR ''_'' (query_name read_no_plus)))
   \<and> pos_checker [read_rev_T, read_no_plus] 0 ''C'' ''T'' = Inl IndexError"
proof -
  have h1: "read_no_plus \<in> set [read_rev_T, read_no_plus]" by simp
  have h2: "CHR ''+'' \<notin> set (last (py_split CHR ''_'' (query_name read_no_plus)))"
    by (simp add: read_no_plus_def)
  from pos_checker_unparseable[OF h1 h2] h1 h2 show ?thesis by simp
qed

text \<open>
  The claim as the specification states it fails: with the unparseable read first, the
  two good reads behind it are not grouped, and the call returns no result, where the
  same call without that read returns the classified molecule.
\<close>

theorem pos_checker_skip_counterexample:
  "pos_checker [read_no_plus, read_fwd_C, read_rev_T] 0 ''C'' ''T'' = Inl IndexError
   \<and> pos_checker [read_fwd_C, read_rev_T] 0 ''C'' ''T'' =
       Inr [(''AAA_CCC'',
             \<lparr>Forward_Single = [], Reverse_Single = [],
              Variant_Hits = Some
                \<lparr>FFPE_Hits =
                   [(CHR ''C'',
                     \<lparr>hit_Forward_Molecule =
                        [(CHR ''A'', 0), (CHR ''T'', 0), (CHR ''G'', 0), (CHR ''C'', 1),
                         (CHR ''N'', 0), (CHR ''-'', 0)],
                      hit_Reverse_Molecule =
                        [(CHR ''A'', 0), (CHR ''T'', 1), (CHR ''G'', 0), (CHR ''C'', 0),
                         (CHR ''N'', 0), (CHR ''-'', 0)]\<rparr>)],
                 Mutation_Hits = [], Reference_Hits = [], Other_Mutation_Hits = []\<rparr>\<rparr>)]"
  by code_simp

section \<open>Properties of vcf\_extract\<close>

text \<open>
  A record without alternate alleles does not reach the guard on the allele sets:
  \<^verbatim>\<open>''.join(record.alts)\<close> raises TypeError on \<^verbatim>\<open>None\<close>, and the run ends there.
\<close>

lemma vcf_record_step_no_alts:
  "rec_alts record = None \<Longrightarrow> vcf_record_step bam_fetch record = Inl TypeError"
  by (simp add: vcf_record_step_def Let_def)

text \<open>
  Claim C5, as the code has it. A record that has alternate alleles (\<^verbatim>\<open>record.alts\<close> is
  not \<^verbatim>\<open>None\<close>) and whose reference string, or whose alternate strings taken together,
  hold more than one distinct character is left by \<^verbatim>\<open>continue\<close>: nothing is computed
  for it and it is not written to the output, and the loop goes on with the records
  after it.
\<close>

theorem vcf_extract_skip:
  assumes "rec_alts record = Some alts"
    and "card (set (rec_ref record)) > 1 \<or> card (set (concat alts)) > 1"
  shows "vcf_record_step bam_fetch record = Inr None
         \<and> vcf_extract bam_fetch (record # rest) = vcf_extract bam_fetch rest"
proof -
  have "length (remdups (rec_ref record)) > 1 \<or> length (remdups (concat alts)) > 1"
    using assms(2) by (simp only: List.card_set)
  then have "vcf_record_step bam_fetch record = Inr None"
    using assms(1) by (simp add: vcf_record_step_def Let_def)
  then show ?thesis by simp
qed

theorem vcf_extract_skip_witness:
  "rec_alts indel_record = Some [''T'']
   \<and> vcf_record_step (bam_at_0 [read_fwd_C, read_rev_T]) indel_record = Inr None
   \<and> vcf_extract (bam_at_0 [read_fwd_C, read_rev_T]) [indel_record, snv_record]
       = vcf_extract (bam_at_0 [read_fwd_C, read_rev_T]) [snv_record]"
proof -
  have h1: "rec_alts indel_record = Some [''T'']" by (simp add: indel_record_def)
  have "card (set (rec_ref indel_record)) = 2" by (simp add: indel_record_def)
  then have h2: "card (set (rec_ref indel_record)) > 1 \<or> card (set (concat [''T''])) > 1"
    by simp
  from vcf_extract_skip[OF h1 h2] h1 show ?thesis by simp
qed

text \<open>
  The claim as the specification states it fails: the skipped record is not passed
  through, the output of a run over it alone is empty.
\<close>

theorem vcf_extract_pass_through_counterexample:
  "vcf_extract (bam_at_0 [read_fwd_C, read_rev_T]) [indel_record] = ([], None)"
  by code_simp

text \<open>
  Claim C10. The reads of a record are those the alignment file gives for the contig
  \<^verbatim>\<open>chr8\<close> between the record's position minus one and the position: two alignment
  sources that agree there, and two records that differ in the chromosome only, get the
  same annotation, the chromosome of the record being copied to the output as it is.
\<close>

theorem vcf_record_step_chr8:
  assumes "bam_fetch ''chr8'' (rec_pos record - 1) (rec_pos record)
           = bam_fetch' ''chr8'' (rec_pos record - 1) (rec_pos record)"
  shows "vcf_record_step bam_fetch' (record\<lparr>rec_chrom := c\<rparr>)
         = map_sum id (map_option (\<lambda>r. r\<lparr>rec_chrom := c\<rparr>)) (vcf_record_step bam_fetch record)"
  using assms
  by (simp add: vcf_record_step_def Let_def bind_err_def split: option.splits sum.splits)

theorem vcf_record_step_chr8_witness:
  "vcf_record_step (\<lambda>contig start stop. if contig = ''chr8'' then Inr [read_fwd_C, read_rev_T] else Inr [])
     (snv_record\<lparr>rec_chrom := ''chrX''\<rparr>)
   = map_sum id (map_option (\<lambda>r. r\<lparr>rec_chrom := ''chrX''\<rparr>))
       (vcf_record_step (bam_at_0 [read_fwd_C, read_rev_T]) snv_record)"
proof -
  have h: "bam_at_0 [read_fwd_C, read_rev_T] ''chr8'' (rec_pos snv_record - 1) (rec_pos snv_record)
           = (\<lambda>contig start stop. if contig = ''chr8'' then Inr [read_fwd_C, read_rev_T] else Inr [])
               ''chr8'' (rec_pos snv_record - 1) (rec_pos snv_record)"
    by (simp add: bam_at_0_def snv_record_def)
  from vcf_record_step_chr8[of "bam_at_0 [read_fwd_C, read_rev_T]" snv_record
         "\<lambda>contig start stop. if contig = ''chr8'' then Inr [read_fwd_C, read_rev_T] else Inr []"
         "''chrX''", OF h]
  show ?thesis .
qed


section \<open>Properties of the classification\<close>

lemma map_of_keys_Some: "map fst t = ks \<Longrightarrow> k \<in> set ks \<Longrightarrow> \<exists>n. map_of t k = Some n"
  by (metis domD dom_map_of_conv_image_fst list.set_map)

lemma dict_get_update: "dict_get (AList.update k v al) k = Inr v"
  by (simp add: dict_get_def update_conv')

text \<open>
  \<^verbatim>\<open>ffpe_finder\<close> for one alternate allele and one reference base that the tallies hold:
  the chain of conditions of the source, on the four counts.
\<close>

lemma ffpe_finder_single:
  assumes "dict_get (Forward_Hits br) umi_key = Inr fh"
    and "dict_get (Reverse_Hits br) umi_key = Inr rh"
    and "map_of fh var_call = Some fv" and "map_of rh var_call = Some rv"
    and "map_of fh r_base = Some fb" and "map_of rh r_base = Some rb"
  shows "ffpe_finder br [var_call] [r_base] umi_key =
     (let h = \<lparr>hit_Forward_Molecule = fh, hit_Reverse_Molecule = rh\<rparr> in
      if fv > 0 \<and> rv > 0 then no_hits\<lparr>Mutation_Hits := [(var_call, h)]\<rparr>
      else if fv > 0 \<or> rv > 0 then no_hits\<lparr>FFPE_Hits := [(var_call, h)]\<rparr>
      else if fb > 0 \<and> rb > 0 then no_hits\<lparr>Reference_Hits := [(r_base, h)]\<rparr>
      else no_hits\<lparr>Mutation_Hits := [(var_call, h)]\<rparr>)"
  using assms
  by (simp add: ffpe_finder_def ffpe_step_def Let_def bind_err_def py_and_def py_test_def
        dict_get_def no_hits_def)

lemma check_branch_paired:
  assumes "Forward_Molecule m \<noteq> []" and "Reverse_Molecule m \<noteq> []"
    and "pos_hits (Forward_Molecule m) record_pos = Inr fh"
    and "pos_hits (Reverse_Molecule m) record_pos = Inr rh"
  shows "check_branch record_pos ref_var ref_base umi_key m s =
     Inr (s\<lparr>f_hits := AList.update umi_key fh (f_hits s),
            r_hits := AList.update umi_key rh (r_hits s),
            var_dict := Some (ffpe_finder
               \<lparr>Forward_Hits = AList.update umi_key fh (f_hits s),
                Reverse_Hits = AList.update umi_key rh (r_hits s)\<rparr> ref_var ref_base umi_key)\<rparr>)"
  using assms by (simp add: check_branch_def Let_def bind_err_def)

lemma map_of_keys_None: "map fst t = ks \<Longrightarrow> k \<notin> set ks \<Longrightarrow> map_of t k = None"
  by (metis map_of_eq_None_iff list.set_map)

lemma count_of_Some: "map_of d a = Some n \<Longrightarrow> count_of d a = n"
  by (simp add: count_of_def)

lemma ffpe_finder_alt_missing:
  assumes "dict_get (Forward_Hits br) umi_key = Inr fh"
    and "dict_get (Reverse_Hits br) umi_key = Inr rh"
    and "map_of fh var_call = None"
  shows "ffpe_finder br [var_call] [r_base] umi_key = no_hits"
  using assms
  by (simp add: ffpe_finder_def ffpe_step_def Let_def bind_err_def py_and_def py_test_def
        dict_get_def)

lemma ffpe_finder_alt_seen:
  assumes "dict_get (Forward_Hits br) umi_key = Inr fh"
    and "dict_get (Reverse_Hits br) umi_key = Inr rh"
    and "map_of fh var_call = Some fv" and "map_of rh var_call = Some rv"
    and "fv > 0 \<or> rv > 0"
  shows "ffpe_finder br [var_call] [r_base] umi_key =
     (let h = \<lparr>hit_Forward_Molecule = fh, hit_Reverse_Molecule = rh\<rparr> in
      if fv > 0 \<and> rv > 0 then no_hits\<lparr>Mutation_Hits := [(var_call, h)]\<rparr>
      else no_hits\<lparr>FFPE_Hits := [(var_call, h)]\<rparr>)"
  using assms
  by (auto simp add: ffpe_finder_def ffpe_step_def Let_def bind_err_def py_and_def py_test_def
        dict_get_def no_hits_def)

lemma ffpe_finder_ref_missing:
  assumes "dict_get (Forward_Hits br) umi_key = Inr fh"
    and "dict_get (Reverse_Hits br) umi_key = Inr rh"
    and "map_of fh var_call = Some 0" and "map_of rh var_call = Some 0"
    and "map_of fh r_base = None"
  shows "ffpe_finder br [var_call] [r_base] umi_key = no_hits"
  using assms
  by (simp add: ffpe_finder_def ffpe_step_def Let_def bind_err_def py_and_def py_test_def
        dict_get_def)

text \<open>
  Claim C8, as the code has it. Take a molecule with reads on both strands (each read
  with at most one reference position per base), one alternate allele and one reference
  base. The pass of \<^verbatim>\<open>pos_checker\<close> over the molecule returns, and the alternate allele
  is tested first: present on both strands it gives a Mutation hit, present on one
  strand only an FFPE hit, whatever the reference base; only when it is absent from both
  strands a reference base present on both gives a Reference hit. Each hit carries the
  forward and the reverse tally. Exactly one of the four categories of "Variant Hits" is
  not empty when the alternate allele is a symbol of the tallies (A, T, G, C, N, -) and
  either it is present on a strand or the reference base is such a symbol too. In every
  other case an allele that has to be looked up is not in the tallies: the KeyError is
  caught and no category gets an entry.
\<close>

theorem paired_group_one_category:
  assumes "Forward_Molecule m \<noteq> []" and "Reverse_Molecule m \<noteq> []"
    and "\<forall>rd \<in> set (Forward_Molecule m @ Reverse_Molecule m).
           length (reference_positions rd) \<le> length (query_sequence rd)"
  shows "\<exists>s' d fh rh.
     check_branch record_pos [var_call] [r_base] umi_key m s = Inr s' \<and> var_dict s' = Some d
     \<and> pos_hits (Forward_Molecule m) record_pos = Inr fh
     \<and> pos_hits (Reverse_Molecule m) record_pos = Inr rh
     \<and> (var_call \<in> set ''ATGCN-''
          \<and> (count_of fh var_call > 0 \<or> count_of rh var_call > 0 \<or> r_base \<in> set ''ATGCN-'')
         \<longrightarrow> length (filter (\<lambda>c. c \<noteq> [])
               [FFPE_Hits d, Mutation_Hits d, Reference_Hits d, Other_Mutation_Hits d]) = 1)
     \<and> (count_of fh var_call > 0 \<and> count_of rh var_call > 0 \<longrightarrow>
          d = no_hits\<lparr>Mutation_Hits :=
                [(var_call, \<lparr>hit_Forward_Molecule = fh, hit_Reverse_Molecule = rh\<rparr>)]\<rparr>)
     \<and> ((count_of fh var_call > 0 \<and> count_of rh var_call = 0)
          \<or> (count_of rh var_call > 0 \<and> count_of fh var_call = 0) \<longrightarrow>
          d = no_hits\<lparr>FFPE_Hits :=
                [(var_call, \<lparr>hit_Forward_Molecule = fh, hit_Reverse_Molecule = rh\<rparr>)]\<rparr>)
     \<and> (var_call \<in> set ''ATGCN-'' \<and> count_of fh var_call = 0 \<and> count_of rh var_call = 0
          \<and> count_of fh r_base > 0 \<and> count_of rh r_base > 0 \<longrightarrow>
          d = no_hits\<lparr>Reference_Hits :=
                [(r_base, \<lparr>hit_Forward_Molecule = fh, hit_Reverse_Molecule = rh\<rparr>)]\<rparr>)
     \<and> (var_call \<notin> set ''ATGCN-''
          \<or> (count_of fh var_call = 0 \<and> count_of rh var_call = 0 \<and> r_base \<notin> set ''ATGCN-'')
         \<longrightarrow> d = no_hits)"
proof -
  have wf: "\<forall>rd \<in> set (Forward_Molecule m).
              length (reference_positions rd) \<le> length (query_sequence rd)"
    and wr: "\<forall>rd \<in> set (Reverse_Molecule m).
              length (reference_positions rd) \<le> length (query_sequence rd)"
    using assms(3) by auto
  obtain fh where fh: "pos_hits (Forward_Molecule m) record_pos = Inr fh" "map fst fh = ''ATGCN-''"
    using pos_hits_loop_counted[OF wf, of record_pos
            "\<lparr>n_a = 0, n_t = 0, n_g = 0, n_c = 0, n_n = 0, n_d = 0\<rparr>"]
    by (auto simp: pos_hits_def pos_dict_def)
  obtain rh where rh: "pos_hits (Reverse_Molecule m) record_pos = Inr rh" "map fst rh = ''ATGCN-''"
    using pos_hits_loop_counted[OF wr, of record_pos
            "\<lparr>n_a = 0, n_t = 0, n_g = 0, n_c = 0, n_n = 0, n_d = 0\<rparr>"]
    by (auto simp: pos_hits_def pos_dict_def)
  let ?br = "\<lparr>Forward_Hits = AList.update umi_key fh (f_hits s),
              Reverse_Hits = AList.update umi_key rh (r_hits s)\<rparr>"
  let ?d = "ffpe_finder ?br [var_call] [r_base] umi_key"
  let ?s' = "s\<lparr>f_hits := AList.update umi_key fh (f_hits s),
               r_hits := AList.update umi_key rh (r_hits s), var_dict := Some ?d\<rparr>"
  let ?h = "\<lparr>hit_Forward_Molecule = fh, hit_Reverse_Molecule = rh\<rparr>"
  let ?n = "length (filter (\<lambda>c. c \<noteq> [])
               [FFPE_Hits ?d, Mutation_Hits ?d, Reference_Hits ?d, Other_Mutation_Hits ?d])"
  let ?fv = "count_of fh var_call" and ?rv = "count_of rh var_call"
  let ?fb = "count_of fh r_base" and ?rb = "count_of rh r_base"
  have step: "check_branch record_pos [var_call] [r_base] umi_key m s = Inr ?s'"
    by (rule check_branch_paired[OF assms(1) assms(2) fh(1) rh(1)])
  have gf: "dict_get (Forward_Hits ?br) umi_key = Inr fh"
    and gr: "dict_get (Reverse_Hits ?br) umi_key = Inr rh"
    by (simp_all add: dict_get_update)
  have body: "(var_call \<in> set ''ATGCN-'' \<and> (?fv > 0 \<or> ?rv > 0 \<or> r_base \<in> set ''ATGCN-'')
         \<longrightarrow> ?n = 1)
     \<and> (?fv > 0 \<and> ?rv > 0 \<longrightarrow> ?d = no_hits\<lparr>Mutation_Hits := [(var_call, ?h)]\<rparr>)
     \<and> ((?fv > 0 \<and> ?rv = 0) \<or> (?rv > 0 \<and> ?fv = 0) \<longrightarrow>
          ?d = no_hits\<lparr>FFPE_Hits := [(var_call, ?h)]\<rparr>)
     \<and> (var_call \<in> set ''ATGCN-'' \<and> ?fv = 0 \<and> ?rv = 0 \<and> ?fb > 0 \<and> ?rb > 0 \<longrightarrow>
          ?d = no_hits\<lparr>Reference_Hits := [(r_base, ?h)]\<rparr>)
     \<and> (var_call \<notin> set ''ATGCN-'' \<or> (?fv = 0 \<and> ?rv = 0 \<and> r_base \<notin> set ''ATGCN-'')
         \<longrightarrow> ?d = no_hits)"
  proof (cases "var_call \<in> set ''ATGCN-''")
    case False
    have nf: "map_of fh var_call = None" by (rule map_of_keys_None[OF fh(2) False])
    have nr: "map_of rh var_call = None" by (rule map_of_keys_None[OF rh(2) False])
    have "?d = no_hits" by (rule ffpe_finder_alt_missing[OF gf gr nf])
    moreover have "?fv = 0" "?rv = 0" using nf nr by (simp_all add: count_of_def)
    ultimately show ?thesis using False by simp
  next
    case True
    obtain fv where fv: "map_of fh var_call = Some fv"
      using map_of_keys_Some[OF fh(2) True] by blast
    obtain rv where rv: "map_of rh var_call = Some rv"
      using map_of_keys_Some[OF rh(2) True] by blast
    have cfv: "?fv = fv" and crv: "?rv = rv" using fv rv by (simp_all add: count_of_Some)
    show ?thesis
    proof (cases "fv > 0 \<or> rv > 0")
      case seen: True
      have "?d = (let h = ?h in
               if fv > 0 \<and> rv > 0 then no_hits\<lparr>Mutation_Hits := [(var_call, h)]\<rparr>
               else no_hits\<lparr>FFPE_Hits := [(var_call, h)]\<rparr>)"
        by (rule ffpe_finder_alt_seen[OF gf gr fv rv seen])
      then show ?thesis using True seen cfv crv
        by (auto simp: Let_def no_hits_def)
    next
      case unseen: False
      then have z: "fv = 0" "rv = 0" by simp_all
      show ?thesis
      proof (cases "r_base \<in> set ''ATGCN-''")
        case rin: True
        obtain fb where fb: "map_of fh r_base = Some fb"
          using map_of_keys_Some[OF fh(2) rin] by blast
        obtain rb where rb: "map_of rh r_base = Some rb"
          using map_of_keys_Some[OF rh(2) rin] by blast
        have cfb: "?fb = fb" and crb: "?rb = rb" using fb rb by (simp_all add: count_of_Some)
        have "?d = (let h = ?h in
            if fv > 0 \<and> rv > 0 then no_hits\<lparr>Mutation_Hits := [(var_call, h)]\<rparr>
            else if fv > 0 \<or> rv > 0 then no_hits\<lparr>FFPE_Hits := [(var_call, h)]\<rparr>
            else if fb > 0 \<and> rb > 0 then no_hits\<lparr>Reference_Hits := [(r_base, h)]\<rparr>
            else no_hits\<lparr>Mutation_Hits := [(var_call, h)]\<rparr>)"
          by (rule ffpe_finder_single[OF gf gr fv rv fb rb])
        then show ?thesis using True rin z cfv crv cfb crb
          by (auto simp: Let_def no_hits_def)
      next
        case rout: False
        have nb: "map_of fh r_base = None" by (rule map_of_keys_None[OF fh(2) rout])
        have "?d = no_hits"
          by (rule ffpe_finder_ref_missing[OF gf gr _ _ nb]) (simp_all add: fv rv z)
        moreover have "?fb = 0" using nb by (simp add: count_of_def)
        ultimately show ?thesis using True rout z cfv crv by simp
      qed
    qed
  qed
  have vd: "var_dict ?s' = Some ?d" by simp
  from step vd fh(1) rh(1) body show ?thesis by blast
qed

theorem paired_group_one_category_witness:
  "(\<exists>s' d. check_branch 0 ''C'' ''T'' ''AAA_CCC''
             \<lparr>Forward_Molecule = [read_fwd_C], Reverse_Molecule = [read_rev_T]\<rparr>
             \<lparr>f_hits = [], r_hits = [], f_s_hits = [], r_s_hits = [], var_dict = None,
              pos_res = []\<rparr> = Inr s'
     \<and> var_dict s' = Some d
     \<and> length (filter (\<lambda>c. c \<noteq> [])
          [FFPE_Hits d, Mutation_Hits d, Reference_Hits d, Other_Mutation_Hits d]) = 1)
   \<and> (\<exists>s'. check_branch 0 ''*'' ''T'' ''AAA_CCC''
             \<lparr>Forward_Molecule = [read_fwd_C], Reverse_Molecule = [read_rev_T]\<rparr>
             \<lparr>f_hits = [], r_hits = [], f_s_hits = [], r_s_hits = [], var_dict = None,
              pos_res = []\<rparr> = Inr s'
     \<and> var_dict s' = Some no_hits)
   \<and> (\<exists>s' d. check_branch 0 ''C'' ''t'' ''AAA_CCC''
             \<lparr>Forward_Molecule = [read_fwd_C], Reverse_Molecule = [read_rev_T]\<rparr>
             \<lparr>f_hits = [], r_hits = [], f_s_hits = [], r_s_hits = [], var_dict = None,
              pos_res = []\<rparr> = Inr s'
     \<and> var_dict s' = Some d
     \<and> length (filter (\<lambda>c. c \<noteq> [])
          [FFPE_Hits d, Mutation_Hits d, Reference_Hits d, Other_Mutation_Hits d]) = 1)"
proof -
  let ?m = "\<lparr>Forward_Molecule = [read_fwd_C], Reverse_Molecule = [read_rev_T]\<rparr>"
  let ?s = "\<lparr>f_hits = [], r_hits = [], f_s_hits = [], r_s_hits = [], var_dict = None,
             pos_res = []\<rparr>"
  have h1: "Forward_Molecule ?m \<noteq> []" and h2: "Reverse_Molecule ?m \<noteq> []" by simp_all
  have h3: "\<forall>rd \<in> set (Forward_Molecule ?m @ Reverse_Molecule ?m).
           length (reference_positions rd) \<le> length (query_sequence rd)"
    by (simp add: read_fwd_C_def read_rev_T_def)
  have a: "CHR ''C'' \<in> set ''ATGCN-''" and b: "CHR ''T'' \<in> set ''ATGCN-''"
    and c: "CHR ''*'' \<notin> set ''ATGCN-''" by simp_all
  have first: "\<exists>s' d. check_branch 0 ''C'' ''T'' ''AAA_CCC'' ?m ?s = Inr s'
     \<and> var_dict s' = Some d
     \<and> length (filter (\<lambda>c. c \<noteq> [])
          [FFPE_Hits d, Mutation_Hits d, Reference_Hits d, Other_Mutation_Hits d]) = 1"
    using paired_group_one_category[OF h1 h2 h3, of 0 "CHR ''C''" "CHR ''T''" "''AAA_CCC''" ?s] a b
    apply (elim exE conjE)
    apply (intro exI conjI)
      apply assumption
     apply assumption
    apply simp
    done
  have second: "\<exists>s'. check_branch 0 ''*'' ''T'' ''AAA_CCC'' ?m ?s = Inr s'
     \<and> var_dict s' = Some no_hits"
    using paired_group_one_category[OF h1 h2 h3, of 0 "CHR ''*''" "CHR ''T''" "''AAA_CCC''" ?s] c
    apply (elim exE conjE)
    apply (intro exI conjI)
     apply assumption
    apply simp
    done
  have ph: "pos_hits [read_fwd_C] 0 = Inr tally_C" by code_simp
  have third: "\<exists>s' d. check_branch 0 ''C'' ''t'' ''AAA_CCC'' ?m ?s = Inr s'
     \<and> var_dict s' = Some d
     \<and> length (filter (\<lambda>c. c \<noteq> [])
          [FFPE_Hits d, Mutation_Hits d, Reference_Hits d, Other_Mutation_Hits d]) = 1"
  proof -
    from paired_group_one_category[OF h1 h2 h3, of 0 "CHR ''C''" "CHR ''t''" "''AAA_CCC''" ?s]
    obtain s' d fh rh where
      cb: "check_branch 0 ''C'' ''t'' ''AAA_CCC'' ?m ?s = Inr s'"
      and vd: "var_dict s' = Some d"
      and pf: "pos_hits (Forward_Molecule ?m) 0 = Inr fh"
      and one: "CHR ''C'' \<in> set ''ATGCN-''
          \<and> (count_of fh CHR ''C'' > 0 \<or> count_of rh CHR ''C'' > 0 \<or> CHR ''t'' \<in> set ''ATGCN-'')
         \<longrightarrow> length (filter (\<lambda>c. c \<noteq> [])
               [FFPE_Hits d, Mutation_Hits d, Reference_Hits d, Other_Mutation_Hits d]) = 1"
      by (elim exE conjE) (rule that, assumption+)
    from pf ph have "fh = tally_C" by simp
    then have "count_of fh CHR ''C'' > 0" by (simp add: tally_C_def count_of_def)
    with one a have "length (filter (\<lambda>c. c \<noteq> [])
               [FFPE_Hits d, Mutation_Hits d, Reference_Hits d, Other_Mutation_Hits d]) = 1"
      by blast
    with cb vd show ?thesis by blast
  qed
  from first second third show ?thesis by (intro conjI)
qed

text \<open>
  The claim as the specification states it fails for an alternate allele that is not a
  symbol of the tallies, such as the \<^verbatim>\<open>*\<close> of a spanning deletion: the KeyError of the
  lookup is caught in \<^verbatim>\<open>ffpe_finder\<close>, and the paired molecule gets no category at all.
\<close>

theorem paired_group_no_category_counterexample:
  "pos_checker [read_fwd_C, read_rev_T] 0 ''*'' ''T'' =
     Inr [(''AAA_CCC'',
           \<lparr>Forward_Single = [], Reverse_Single = [],
            Variant_Hits = Some \<lparr>FFPE_Hits = [], Mutation_Hits = [], Reference_Hits = [],
                                 Other_Mutation_Hits = []\<rparr>\<rparr>)]"
  by code_simp

text \<open>No input puts anything under "Other Mutation Hits".\<close>

lemma ffpe_step_other:
  "ffpe_step f r v b d = Inr d' \<Longrightarrow> Other_Mutation_Hits d' = Other_Mutation_Hits d"
  by (auto simp: ffpe_step_def Let_def bind_err_def split: sum.splits if_splits)

lemma ffpe_loop_other: "Other_Mutation_Hits (ffpe_loop f r ps d) = Other_Mutation_Hits d"
proof (induction ps arbitrary: d)
  case Nil
  then show ?case by simp
next
  case (Cons p ps)
  then show ?case
    by (cases p) (auto split: sum.splits dest: ffpe_step_other)
qed

lemma ffpe_finder_other_empty:
  "Other_Mutation_Hits (ffpe_finder br ref_var ref_base umi_key) = []"
  by (simp add: ffpe_finder_def ffpe_loop_other no_hits_def split: sum.splits)

text \<open>
  Claim C3 on the code. A paired molecule that shows G on both strands, for the
  reference base T and the alternate allele C, meets none of the three rules. The last
  branch of \<^verbatim>\<open>ffpe_finder\<close> stores it under "Mutation Hits", keyed by the alternate
  allele, and "Other Mutation Hits" stays empty.
\<close>

theorem unresolved_pattern_stored_as_mutation:
  "pos_checker [read_fwd_G, read_rev_G] 0 ''C'' ''T'' =
     Inr [(''AAA_CCC'',
           \<lparr>Forward_Single = [], Reverse_Single = [],
            Variant_Hits = Some
              \<lparr>FFPE_Hits = [],
               Mutation_Hits = [(CHR ''C'', \<lparr>hit_Forward_Molecule = tally_G,
                                              hit_Reverse_Molecule = tally_G\<rparr>)],
               Reference_Hits = [], Other_Mutation_Hits = []\<rparr>\<rparr>)]"
  by code_simp

section \<open>Singleton molecules and the order of the molecules\<close>

lemma set_update_subset: "set (AList.update k v al) \<subseteq> insert (k, v) (set al)"
  by (induction al) auto

lemma check_branch_f_s_hits:
  "check_branch record_pos ref_var ref_base umi_key m s = Inr s' \<Longrightarrow>
   f_s_hits s' = f_s_hits s \<and> pos_res s' = pos_res s"
  by (auto simp: check_branch_def Let_def bind_err_def split: sum.splits if_splits)

lemma check_step_forward_single:
  assumes "check_step record_pos ref_var ref_base umi_key m s = Inr s'"
    and "f_s_hits s = []" and "\<forall>e \<in> snd ` set (pos_res s). Forward_Single e = []"
  shows "f_s_hits s' = [] \<and> (\<forall>e \<in> snd ` set (pos_res s'). Forward_Single e = [])"
proof -
  from assms(1) obtain s1 where
    s1: "check_branch record_pos ref_var ref_base umi_key m s = Inr s1"
    and s': "s' = s1\<lparr>pos_res := AList.update umi_key
                   \<lparr>Forward_Single = f_s_hits s1, Reverse_Single = r_s_hits s1,
                    Variant_Hits = var_dict s1\<rparr> (pos_res s1)\<rparr>"
    by (auto simp: check_step_def bind_err_def split: sum.splits)
  from check_branch_f_s_hits[OF s1] assms(2,3)
  have a: "f_s_hits s1 = []" and b: "\<forall>e \<in> snd ` set (pos_res s1). Forward_Single e = []"
    by auto
  show ?thesis
    using a b set_update_subset[of umi_key
                "\<lparr>Forward_Single = f_s_hits s1, Reverse_Single = r_s_hits s1,
                  Variant_Hits = var_dict s1\<rparr>" "pos_res s1"]
    by (auto simp: s')
qed

lemma check_loop_forward_single:
  "f_s_hits s = [] \<Longrightarrow> \<forall>e \<in> snd ` set (pos_res s). Forward_Single e = [] \<Longrightarrow>
   \<forall>e \<in> snd ` set (pos_res (snd (check_loop record_pos ref_var ref_base umi_dict s))).
      Forward_Single e = []"
proof (induction umi_dict arbitrary: s)
  case Nil
  then show ?case by simp
next
  case (Cons p rest)
  obtain k m where p: "p = (k, m)" by (cases p)
  show ?case
  proof (cases "check_step record_pos ref_var ref_base k m s")
    case (Inl e)
    with Cons.prems p show ?thesis by simp
  next
    case (Inr s1)
    from check_step_forward_single[OF Inr Cons.prems]
    have "f_s_hits s1 = []" "\<forall>e \<in> snd ` set (pos_res s1). Forward_Single e = []" by auto
    from Cons.IH[OF this] Inr p show ?thesis by simp
  qed
qed

text \<open>
  The branch \<^verbatim>\<open>elif f_lst\<close> of \<^verbatim>\<open>pos_checker\<close> follows \<^verbatim>\<open>if f_lst\<close> and is never taken:
  whatever the reads, every entry of the result has an empty "Forward Single".
\<close>

lemma pos_checker_forward_single_empty:
  assumes "pos_checker bam_lst record_pos ref_var ref_base = Inr res"
  shows "\<forall>e \<in> snd ` set res. Forward_Single e = []"
proof -
  let ?init = "\<lparr>f_hits = [], r_hits = [], f_s_hits = [], r_s_hits = [], var_dict = None,
                pos_res = []\<rparr>"
  have inv: "\<And>ud. \<forall>e \<in> snd ` set (pos_res (snd (check_loop record_pos ref_var ref_base ud ?init))).
                    Forward_Single e = []"
    by (rule check_loop_forward_single) simp_all
  from assms show ?thesis
    using inv
    by (auto simp: pos_checker_def split: sum.splits py_error.splits prod.splits option.splits)
       (metis snd_eqD)+
qed

text \<open>
  Claim C2 on the code. A forward read alone at the position: its molecule gets an entry
  whose "Forward Single" is empty, and the Forward-Single count of the allele C that the
  read shows stays 0. The same read after a paired molecule: its entry repeats the
  "Variant Hits" of that molecule, and the Paired count of C is 2 where the paired
  molecule alone gives 1.
\<close>

theorem forward_singleton_not_counted:
  "pos_checker [read_fwd_single] 0 ''C'' ''T''
     = Inr [(''GGG_TTT'', \<lparr>Forward_Single = [], Reverse_Single = [], Variant_Hits = None\<rparr>)]
   \<and> sup_count [(''GGG_TTT'', \<lparr>Forward_Single = [], Reverse_Single = [], Variant_Hits = None\<rparr>)]
        ''T'' ''C''
     = Inr \<lparr>Variant = counts 0 0 0 CHR ''C'', Reference = counts 0 0 0 CHR ''T''\<rparr>
   \<and> pos_checker [read_fwd_C, read_rev_T, read_fwd_single] 0 ''C'' ''T''
     = Inr [(''AAA_CCC'', ffpe_entry), (''GGG_TTT'', ffpe_entry)]
   \<and> sup_count [(''AAA_CCC'', ffpe_entry), (''GGG_TTT'', ffpe_entry)] ''T'' ''C''
     = Inr \<lparr>Variant = counts 2 0 0 CHR ''C'', Reference = counts 0 0 0 CHR ''T''\<rparr>"
  by code_simp

text \<open>
  Claim C7 on the code. A paired molecule and a reverse singleton of another molecule,
  with the reads of the paired molecule first and then with the singleton first: the
  molecules are the same, and the counts of the allele C differ, Paired 2 and
  Reverse-Single 1 against Paired 1 and Reverse-Single 2.
\<close>

theorem group_order_changes_support:
  "bind_err (pos_checker [read_fwd_C, read_rev_T, read_rev_single] 0 ''C'' ''T'')
      (\<lambda>d. sup_count d ''T'' ''C'')
     = Inr \<lparr>Variant = counts 2 0 1 CHR ''C'', Reference = counts 0 0 0 CHR ''T''\<rparr>
   \<and> bind_err (pos_checker [read_rev_single, read_fwd_C, read_rev_T] 0 ''C'' ''T'')
      (\<lambda>d. sup_count d ''T'' ''C'')
     = Inr \<lparr>Variant = counts 1 0 2 CHR ''C'', Reference = counts 0 0 0 CHR ''T''\<rparr>"
  by code_simp

section \<open>sup\_count as a sum over the entries\<close>

lemma dict_in_Nil [simp]: "\<not> dict_in a []"
  by (simp add: dict_in_def)

lemma count_of_Nil [simp]: "count_of [] a = 0"
  by (simp add: count_of_def)

lemma update_same_count: "dict_in a d \<Longrightarrow> AList.update a (count_of d a) d = d"
  by (auto simp: dict_in_def count_of_def intro: update_triv)

lemma update_same_count0 [simp]: "dict_in a d \<Longrightarrow> AList.update a (count_of d a + 0) d = d"
  by (simp add: update_same_count)

lemma dict_in_update [simp]: "dict_in a (AList.update a v d)"
  by (simp add: dict_in_def update_conv')

lemma count_of_update [simp]: "count_of (AList.update a v d) a = v"
  by (simp add: count_of_def update_conv')

lemma dict_add_in: "dict_in a d \<Longrightarrow> dict_add d a x = Inr (AList.update a (count_of d a + x) d)"
  by (auto simp: dict_add_def dict_get_def dict_in_def count_of_def bind_err_def)

lemma forward_single_add_char:
  "has_allele a s \<Longrightarrow> forward_single_add a t s = Inr (bump a (count_of t a, 0, 0) s)"
  by (cases s)
     (auto simp: forward_single_add_def has_allele_def bump_def dict_add_in bind_err_def
        dict_get_def dict_in_def count_of_def update_triv split: option.splits)

lemma reverse_single_add_char:
  "has_allele a s \<Longrightarrow> reverse_single_add a t s = Inr (bump a (0, count_of t a, 0) s)"
  by (cases s)
     (auto simp: reverse_single_add_def has_allele_def bump_def dict_add_in bind_err_def
        dict_get_def dict_in_def count_of_def update_triv split: option.splits)

lemma paired_add_char:
  "has_allele a s \<Longrightarrow>
   paired_add a hits s =
     (case hit_sum a hits of None \<Rightarrow> Inl KeyError | Some p \<Rightarrow> Inr (bump a (0, 0, p) s))"
  by (cases s)
     (auto simp: paired_add_def has_allele_def bump_def dict_add_in bind_err_def hit_sum_def
        dict_get_def dict_in_def count_of_def update_triv update_conv' add.assoc
        split: option.splits)

lemma has_allele_bump [simp]: "has_allele a (bump a c s)"
  by (cases c) (simp add: has_allele_def bump_def)

lemma bump_bump: "bump a c (bump a c' s) = bump a (fst c' + fst c, fst (snd c') + fst (snd c), snd (snd c') + snd (snd c)) s"
  by (cases c; cases c') (simp add: bump_def add.assoc)

lemma bump_zero [simp]: "has_allele a s \<Longrightarrow> bump a (0, 0, 0) s = s"
  by (cases s) (simp add: bump_def has_allele_def update_same_count)

lemma alt_entry_char:
  assumes "has_allele a s"
  shows "alt_entry a e s =
     (case alt_contrib a e of None \<Rightarrow> Inl KeyError | Some c \<Rightarrow> Inr (bump a c s))"
proof -
  have 1: "(if Forward_Single e \<noteq> [] then forward_single_add a (Forward_Single e) s else Inr s)
           = Inr (bump a (count_of (Forward_Single e) a, 0, 0) s)" (is "_ = Inr ?s1")
    using assms by (simp add: forward_single_add_char)
  have k1: "has_allele a ?s1" by simp
  have 2: "(if Reverse_Single e \<noteq> [] then reverse_single_add a (Reverse_Single e) ?s1 else Inr ?s1)
           = Inr (bump a (count_of (Forward_Single e) a, count_of (Reverse_Single e) a, 0) s)" (is "_ = Inr ?s2")
    using k1 by (simp add: reverse_single_add_char bump_bump)
  have k2: "has_allele a ?s2" by simp
  show ?thesis
    unfolding alt_entry_def 1 2 bind_err_def sum.case
    using k2
    by (auto simp: alt_contrib_def paired_add_char bump_bump opt_add_def add.assoc
             split: option.splits)
qed

lemma hit_sum_Nil [simp]: "hit_sum a [] = Some 0"
  by (simp add: hit_sum_def)

lemma ref_mutation_add_char:
  "ref_mutation_add a hits s =
     (case (case map_of hits a of
              None \<Rightarrow> Some (0::nat)
            | Some h \<Rightarrow>
                if hit_Forward_Molecule h \<noteq> [] \<or> hit_Reverse_Molecule h \<noteq> []
                then None else Some 0) of
        None \<Rightarrow> Inl KeyError
      | Some p \<Rightarrow> Inr s)"
  by (auto simp: ref_mutation_add_def dict_in_def dict_get_def bind_err_def split: option.splits)

lemma ref_entry_char:
  assumes "has_allele a s"
  shows "ref_entry a e s =
     (case ref_contrib a e of None \<Rightarrow> Inl KeyError | Some c \<Rightarrow> Inr (bump a c s))"
  using assms
  by (auto simp: ref_entry_def ref_contrib_def forward_single_add_char reverse_single_add_char
        paired_add_char ref_mutation_add_char bump_bump opt_add_def bind_err_def add.assoc
        split: option.splits)

text \<open>The loop over the entries, for a step that adds what each entry contributes.\<close>

lemma entries_loop_char:
  assumes step: "\<And>e s. has_allele a s \<Longrightarrow>
            step e s = (case contrib e of None \<Rightarrow> Inl KeyError | Some c \<Rightarrow> Inr (bump a c s))"
    and "has_allele a s"
  shows "entries_loop step d s =
     (if None \<in> contrib ` snd ` set d then Inl KeyError
      else Inr (bump a (sum_list (map (fst \<circ> the \<circ> contrib \<circ> snd) d),
                        sum_list (map (fst \<circ> snd \<circ> the \<circ> contrib \<circ> snd) d),
                        sum_list (map (snd \<circ> snd \<circ> the \<circ> contrib \<circ> snd) d)) s))"
  using assms(2)
proof (induction d arbitrary: s)
  case Nil
  then show ?case by simp
next
  case (Cons p d)
  obtain k e where p: "p = (k, e)" by (cases p)
  show ?case
  proof (cases "contrib e")
    case None
    then show ?thesis using p step[OF Cons.prems, of e] by (auto simp: image_iff)
  next
    case (Some c)
    have "has_allele a (bump a c s)" by simp
    from Cons.IH[OF this] Some p step[OF Cons.prems, of e]
    show ?thesis by (auto simp: bump_bump add.assoc comp_def)
  qed
qed

lemma entries_loop_mset:
  assumes step: "\<And>e s. has_allele a s \<Longrightarrow>
            step e s = (case contrib e of None \<Rightarrow> Inl KeyError | Some c \<Rightarrow> Inr (bump a c s))"
    and "has_allele a s" and "mset d = mset d'"
  shows "entries_loop step d s = entries_loop step d' s"
proof -
  have set: "set d = set d'" using assms(3) by (rule mset_eq_setD)
  have sum: "\<And>f :: string \<times> pos_entry \<Rightarrow> nat. sum_list (map f d) = sum_list (map f d')"
  proof -
    fix f :: "char list \<times> pos_entry \<Rightarrow> nat"
    have "sum_mset (mset (map f d)) = sum_mset (mset (map f d'))"
      by (simp only: mset_map assms(3))
    then show "sum_list (map f d) = sum_list (map f d')"
      by (simp only: sum_mset_sum_list)
  qed
  have "entries_loop step d s =
     (if None \<in> contrib ` snd ` set d then Inl KeyError
      else Inr (bump a (sum_list (map (fst \<circ> the \<circ> contrib \<circ> snd) d),
                        sum_list (map (fst \<circ> snd \<circ> the \<circ> contrib \<circ> snd) d),
                        sum_list (map (snd \<circ> snd \<circ> the \<circ> contrib \<circ> snd) d)) s))"
    by (rule entries_loop_char[of a step contrib, OF step assms(2)])
  also have "\<dots> =
     (if None \<in> contrib ` snd ` set d' then Inl KeyError
      else Inr (bump a (sum_list (map (fst \<circ> the \<circ> contrib \<circ> snd) d'),
                        sum_list (map (fst \<circ> snd \<circ> the \<circ> contrib \<circ> snd) d'),
                        sum_list (map (snd \<circ> snd \<circ> the \<circ> contrib \<circ> snd) d')) s))"
    by (simp only: set sum)
  also have "\<dots> = entries_loop step d' s"
    by (rule entries_loop_char[of a step contrib, OF step assms(2), symmetric])
  finally show ?thesis .
qed

lemma has_allele_sup_init [simp]: "has_allele a (sup_init a s)"
  by (simp add: has_allele_def sup_init_def)

lemma alleles_loop_mset:
  assumes step: "\<And>a e s. has_allele a s \<Longrightarrow>
            step a e s = (case contrib a e of None \<Rightarrow> Inl KeyError | Some c \<Rightarrow> Inr (bump a c s))"
    and "mset d = mset d'"
  shows "alleles_loop step as d s = alleles_loop step as d' s"
proof (induction as arbitrary: s)
  case Nil
  then show ?case by simp
next
  case (Cons a as)
  have "entries_loop (step a) d (sup_init a s) = entries_loop (step a) d' (sup_init a s)"
    by (rule entries_loop_mset[of a "step a" "contrib a"]) (simp_all add: step assms(2))
  with Cons show ?case by (simp split: sum.splits)
qed

text \<open>
  \<^verbatim>\<open>sup_count\<close> itself does not depend on the order of the entries it is given: each
  count is the sum of what the entries add.
\<close>

lemma sup_count_mset:
  assumes "mset input_dict = mset input_dict'"
  shows "sup_count input_dict n_ref n_alt = sup_count input_dict' n_ref n_alt"
proof -
  have a: "\<And>as s. alleles_loop alt_entry as input_dict s = alleles_loop alt_entry as input_dict' s"
    by (rule alleles_loop_mset[of alt_entry alt_contrib, OF alt_entry_char assms])
  have r: "\<And>as s. alleles_loop ref_entry as input_dict s = alleles_loop ref_entry as input_dict' s"
    by (rule alleles_loop_mset[of ref_entry ref_contrib, OF ref_entry_char assms])
  show ?thesis by (simp only: sup_count_def a r)
qed

section \<open>The FFPE scenario\<close>

text \<open>
  Claim C1 on the code. One molecule with C on the forward strand and T on the reverse
  strand, reference T and alternate C: the molecule is an FFPE hit, the Paired count of C
  is 1 and the record gets the FFPE filter, but the Paired count of T is 0. The
  reference loop of \<^verbatim>\<open>sup_count\<close> looks the reference base up in "FFPE Hits", which
  \<^verbatim>\<open>ffpe_finder\<close> keys by the alternate allele. The UMI field is the two triples joined
  with nothing between them.
\<close>

theorem ffpe_scenario_support:
  "pos_checker [read_fwd_C, read_rev_T] 0 ''C'' ''T'' = Inr [(''AAA_CCC'', ffpe_entry)]
   \<and> sup_count [(''AAA_CCC'', ffpe_entry)] ''T'' ''C''
       = Inr \<lparr>Variant = counts 1 0 0 CHR ''C'', Reference = counts 0 0 0 CHR ''T''\<rparr>
   \<and> vcf_extract (bam_at_0 [read_fwd_C, read_rev_T]) [snv_record]
       = ([snv_record\<lparr>rec_samples := [(''S1'', [(''GT'', ''0/1''), (''UMI'', ''1:0:00:0:0'')])],
                      rec_filter := [''FFPE'']\<rparr>], None)"
  by code_simp

end
